theory Spec2Isabelle
  imports Main
begin

section \<open>Geometry partitions of warp.fem (src/warp/fem/geometry/partition.py)\<close>

text \<open>
  The module defines three partitions of a finite-element geometry: the whole geometry,
  a contiguous range of cells, and an explicit cell mask. Python integers are modelled
  as \<^typ>\<open>int\<close>, warp arrays of integers as \<^typ>\<open>int list\<close>. Every index that
  the functions below handle is bounded by a cell or side count of the geometry, so the
  32-bit integers of warp kernels behave on them as mathematical integers do. The
  \<open>device\<close> arguments of the source only say where an array is stored and are left out.
\<close>

subsection \<open>Errors and array reads\<close>

datatype error = ZeroDivisionError | OutOfBounds

text \<open>
  A warp kernel reads \<open>a[i]\<close> without a bounds check and has no negative indexing;
  a read outside \<open>0 \<le> i < len a\<close> is the error \<open>OutOfBounds\<close>.
\<close>

definition array_get :: "int list \<Rightarrow> int \<Rightarrow> error + int" where
  "array_get a i =
     (if 0 \<le> i \<and> i < int (length a) then Inr (a ! nat i) else Inl OutOfBounds)"

subsection \<open>Collaborators that are not part of the module\<close>

text \<open>
  Modelled from the spec: the constant \<open>NULL_ELEMENT_INDEX\<close> of \<open>warp.fem.types\<close> is
  imported by the module and not defined in it. The spec calls it the NULL sentinel, a
  value that is no element index; element indices are non-negative, and the sentinel
  is \<open>-1\<close>.
\<close>

definition NULL_ELEMENT_INDEX :: int where
  "NULL_ELEMENT_INDEX = - 1"

text \<open>
  Modelled from the spec: the function \<open>masked_indices\<close> of \<open>warp.fem.utils\<close> is
  imported by the module and not defined in it. The spec describes it as stream
  compaction: it turns a 0/1 mask of length N into the ascending list of the positions
  where the mask is true, plus an inverse map of length N that holds, for every selected
  position, its index in that list, and a sentinel slot for every other position.
\<close>

definition masked_indices :: "int list \<Rightarrow> int list \<times> int list" where
  "masked_indices m =
     (map int (filter (\<lambda>i. m ! i \<noteq> 0) [0..<length m]),
      map (\<lambda>i. if m ! i \<noteq> 0
                then int (length (filter (\<lambda>j. m ! j \<noteq> 0) [0..<i]))
                else NULL_ELEMENT_INDEX)
          [0..<length m])"

text \<open>
  The class \<open>Geometry\<close> is imported by the module; a geometry is taken as a parameter,
  a record of what the module calls on it. \<open>'sa\<close> is the geometry's \<open>SideArg\<close>
  structure (the argument of the side to cell adjacency) and \<open>'sia\<close> its
  \<open>SideIndexArg\<close> structure (the argument of \<open>boundary_side_index\<close>). The counts
  are numbers of cells and sides, natural numbers.
\<close>

record ('sa, 'sia) Geometry =
  Geometry_cell_count :: nat
  Geometry_side_count :: nat
  Geometry_boundary_side_count :: nat
  Geometry_side_arg_value :: 'sa
  Geometry_side_index_arg_value :: 'sia
  Geometry_side_inner_cell_index :: "'sa \<Rightarrow> int \<Rightarrow> int"
  Geometry_side_outer_cell_index :: "'sa \<Rightarrow> int \<Rightarrow> int"
  Geometry_boundary_side_index :: "'sia \<Rightarrow> int \<Rightarrow> int"

subsection \<open>WholeGeometryPartition\<close>

definition identity_element_index :: "'args \<Rightarrow> int \<Rightarrow> int" where
  "identity_element_index args idx = idx"

record ('sa, 'sia) WholeGeometryPartition =
  Whole_geometry :: "('sa, 'sia) Geometry"
  Whole_side_arg_value :: 'sia
  Whole_cell_index :: "unit \<Rightarrow> int \<Rightarrow> int"
  Whole_partition_cell_index :: "unit \<Rightarrow> int \<Rightarrow> int"
  Whole_side_index :: "'sia \<Rightarrow> int \<Rightarrow> int"
  Whole_boundary_side_index :: "'sia \<Rightarrow> int \<Rightarrow> int"
  Whole_frontier_side_index :: "'sia \<Rightarrow> int \<Rightarrow> int"

definition Whole_init :: "('sa, 'sia) Geometry \<Rightarrow> ('sa, 'sia) WholeGeometryPartition" where
  "Whole_init geometry =
     \<lparr> Whole_geometry = geometry,
       Whole_side_arg_value = Geometry_side_index_arg_value geometry,
       Whole_cell_index = identity_element_index,
       Whole_partition_cell_index = identity_element_index,
       Whole_side_index = identity_element_index,
       Whole_boundary_side_index = Geometry_boundary_side_index geometry,
       Whole_frontier_side_index = identity_element_index \<rparr>"



definition Whole_boundary_side_count :: "('sa, 'sia) WholeGeometryPartition \<Rightarrow> int" where
  "Whole_boundary_side_count self = int (Geometry_boundary_side_count (Whole_geometry self))"

definition Whole_frontier_side_count :: "('sa, 'sia) WholeGeometryPartition \<Rightarrow> int" where
  "Whole_frontier_side_count self = 0"

definition Whole_cell_arg_value :: "('sa, 'sia) WholeGeometryPartition \<Rightarrow> unit" where
  "Whole_cell_arg_value self = ()"

subsection \<open>CellBasedGeometryPartition: the side classification\<close>

record SideArg =
  partition_side_indices :: "int list"
  boundary_side_indices :: "int list"
  frontier_side_indices :: "int list"

record ('sa, 'sia) CellBasedGeometryPartition =
  self_geometry :: "('sa, 'sia) Geometry"
  self_partition_side_indices :: "int list"
  self_boundary_side_indices :: "int list"
  self_frontier_side_indices :: "int list"


definition CellBased_boundary_side_count ::
  "('sa, 'sia, 'more) CellBasedGeometryPartition_scheme \<Rightarrow> int" where
  "CellBased_boundary_side_count self = int (length (self_boundary_side_indices self))"


definition CellBased_side_arg_value ::
  "('sa, 'sia, 'more) CellBasedGeometryPartition_scheme \<Rightarrow> SideArg" where
  "CellBased_side_arg_value self =
     \<lparr> partition_side_indices = self_partition_side_indices self,
       boundary_side_indices = self_boundary_side_indices self,
       frontier_side_indices = self_frontier_side_indices self \<rparr>"

definition CellBased_side_index :: "SideArg \<Rightarrow> int \<Rightarrow> error + int" where
  "CellBased_side_index args partition_side_index =
     array_get (partition_side_indices args) partition_side_index"

definition CellBased_boundary_side_index :: "SideArg \<Rightarrow> int \<Rightarrow> error + int" where
  "CellBased_boundary_side_index args boundary_side_index =
     array_get (boundary_side_indices args) boundary_side_index"

definition CellBased_frontier_side_index :: "SideArg \<Rightarrow> int \<Rightarrow> error + int" where
  "CellBased_frontier_side_index args frontier_side_index =
     array_get (frontier_side_indices args) frontier_side_index"

text \<open>
  The kernel \<open>count_side_fn\<close> for the thread \<open>side_index\<close>. Its state is the three mask
  arrays, in the order of the kernel's parameters: partition, boundary, frontier. The
  cell inclusion test is a parameter; it may read an array and so may fail.
\<close>

type_synonym side_masks = "int list \<times> int list \<times> int list"

definition count_side_fn ::
  "('sa, 'sia) Geometry \<Rightarrow> ('c \<Rightarrow> int \<Rightarrow> error + bool) \<Rightarrow> 'sa \<Rightarrow> 'c \<Rightarrow> nat \<Rightarrow>
     side_masks \<Rightarrow> error + side_masks" where
  "count_side_fn geometry cell_inclusion_test_func geo_arg cell_arg_value side_index masks =
     (case masks of (partition_side_mask, boundary_side_mask, frontier_side_mask) \<Rightarrow>
      let inner_cell_index = Geometry_side_inner_cell_index geometry geo_arg (int side_index);
          outer_cell_index = Geometry_side_outer_cell_index geometry geo_arg (int side_index)
      in case cell_inclusion_test_func cell_arg_value inner_cell_index of
           Inl e \<Rightarrow> Inl e
         | Inr inner_in \<Rightarrow>
        (case cell_inclusion_test_func cell_arg_value outer_cell_index of
           Inl e \<Rightarrow> Inl e
         | Inr outer_in \<Rightarrow>
             let partition_side_mask' =
                   (if inner_in then partition_side_mask[side_index := 1]
                    else partition_side_mask);
                 boundary_side_mask' =
                   (if inner_in \<and> inner_cell_index = outer_cell_index
                    then boundary_side_mask[side_index := 1]
                    else boundary_side_mask);
                 frontier_side_mask' =
                   (if inner_in \<noteq> outer_in then frontier_side_mask[side_index := 1]
                    else frontier_side_mask)
             in Inr (partition_side_mask', boundary_side_mask', frontier_side_mask')))"

text \<open>
  \<open>wp.launch\<close> runs the kernel once for every thread index below \<open>dim\<close>. Each thread
  writes only the slots of its own index, so the threads are run one after the other,
  in ascending order; the first failing thread fails the launch.
\<close>

fun run_threads :: "(nat \<Rightarrow> 's \<Rightarrow> error + 's) \<Rightarrow> nat list \<Rightarrow> 's \<Rightarrow> error + 's" where
  "run_threads kern [] st = Inr st"
| "run_threads kern (tid # tids) st =
     (case kern tid st of Inl e \<Rightarrow> Inl e | Inr st' \<Rightarrow> run_threads kern tids st')"

definition launch :: "nat \<Rightarrow> (nat \<Rightarrow> 's \<Rightarrow> error + 's) \<Rightarrow> 's \<Rightarrow> error + 's" where
  "launch dim kern inputs = run_threads kern [0..<dim] inputs"

text \<open>The classification pass: the three zeroed masks after the launch.\<close>

definition classify_sides ::
  "('sa, 'sia) Geometry \<Rightarrow> 'c \<Rightarrow> ('c \<Rightarrow> int \<Rightarrow> error + bool) \<Rightarrow> error + side_masks" where
  "classify_sides geometry cell_arg_value cell_inclusion_test_func =
     (let partition_side_mask = replicate (Geometry_side_count geometry) 0;
          boundary_side_mask = replicate (Geometry_side_count geometry) 0;
          frontier_side_mask = replicate (Geometry_side_count geometry) 0
      in launch (length partition_side_mask)
           (count_side_fn geometry cell_inclusion_test_func
              (Geometry_side_arg_value geometry) cell_arg_value)
           (partition_side_mask, boundary_side_mask, frontier_side_mask))"

definition compute_side_indices_from_cells ::
  "('sa, 'sia, 'more) CellBasedGeometryPartition_scheme \<Rightarrow> 'c \<Rightarrow>
     ('c \<Rightarrow> int \<Rightarrow> error + bool) \<Rightarrow>
     error + ('sa, 'sia, 'more) CellBasedGeometryPartition_scheme" where
  "compute_side_indices_from_cells self cell_arg_value cell_inclusion_test_func =
     (case classify_sides (self_geometry self) cell_arg_value cell_inclusion_test_func of
        Inl e \<Rightarrow> Inl e
      | Inr (partition_side_mask, boundary_side_mask, frontier_side_mask) \<Rightarrow>
          Inr (self\<lparr> self_partition_side_indices := fst (masked_indices partition_side_mask),
                     self_boundary_side_indices := fst (masked_indices boundary_side_mask),
                     self_frontier_side_indices := fst (masked_indices frontier_side_mask) \<rparr>))"

subsection \<open>LinearGeometryPartition\<close>

record Linear_CellArg =
  cell_begin :: int
  cell_end :: int

record ('sa, 'sia) LinearGeometryPartition = "('sa, 'sia) CellBasedGeometryPartition" +
  self_cell_begin :: int
  self_cell_end :: int

definition Linear_cell_count :: "('sa, 'sia) LinearGeometryPartition \<Rightarrow> int" where
  "Linear_cell_count self = self_cell_end self - self_cell_begin self"

definition Linear_cell_arg_value :: "('sa, 'sia) LinearGeometryPartition \<Rightarrow> Linear_CellArg" where
  "Linear_cell_arg_value self =
     \<lparr> cell_begin = self_cell_begin self, cell_end = self_cell_end self \<rparr>"

definition Linear_cell_index :: "Linear_CellArg \<Rightarrow> int \<Rightarrow> int" where
  "Linear_cell_index args partition_cell_index = cell_begin args + partition_cell_index"

definition Linear_partition_cell_index :: "Linear_CellArg \<Rightarrow> int \<Rightarrow> int" where
  "Linear_partition_cell_index args cell_index =
     (if cell_index > cell_end args then NULL_ELEMENT_INDEX
      else let partition_cell_index = cell_index - cell_begin args
           in if partition_cell_index < 0 then NULL_ELEMENT_INDEX
              else partition_cell_index)"

definition Linear_cell_inclusion_test :: "Linear_CellArg \<Rightarrow> int \<Rightarrow> error + bool" where
  "Linear_cell_inclusion_test arg cell_index =
     Inr (cell_index \<ge> cell_begin arg \<and> cell_index < cell_end arg)"

text \<open>
  The constructor. \<open>//\<close> is Python's floor division, which is \<open>div\<close> on \<^typ>\<open>int\<close>,
  and raises for a zero divisor.
\<close>

definition Linear_init ::
  "('sa, 'sia) Geometry \<Rightarrow> int \<Rightarrow> int \<Rightarrow> error + ('sa, 'sia) LinearGeometryPartition" where
  "Linear_init geometry partition_rank partition_count =
     (let total_cell_count = int (Geometry_cell_count geometry)
      in if partition_count = 0 then Inl ZeroDivisionError
         else
           let cells_per_partition =
                 (total_cell_count + partition_count - 1) div partition_count;
               first_cell = cells_per_partition * partition_rank;
               self = \<lparr> self_geometry = geometry,
                        self_partition_side_indices = [],
                        self_boundary_side_indices = [],
                        self_frontier_side_indices = [],
                        self_cell_begin = first_cell,
                        self_cell_end = min (first_cell + cells_per_partition) total_cell_count \<rparr>
           in compute_side_indices_from_cells self (Linear_cell_arg_value self)
                Linear_cell_inclusion_test)"

subsection \<open>ExplicitGeometryPartition\<close>

record Explicit_CellArg =
  arg_cell_index :: "int list"
  arg_partition_cell_index :: "int list"

record ('sa, 'sia) ExplicitGeometryPartition = "('sa, 'sia) CellBasedGeometryPartition" +
  self_cell_mask :: "int list"
  self_cells :: "int list"
  self_partition_cells :: "int list"

definition Explicit_cell_inclusion_test :: "int list \<Rightarrow> int \<Rightarrow> error + bool" where
  "Explicit_cell_inclusion_test mask' cell_index =
     (case array_get mask' cell_index of Inl e \<Rightarrow> Inl e | Inr v \<Rightarrow> Inr (v > 0))"

definition Explicit_init ::
  "('sa, 'sia) Geometry \<Rightarrow> int list \<Rightarrow> error + ('sa, 'sia) ExplicitGeometryPartition" where
  "Explicit_init geometry cell_mask =
     (let self = \<lparr> self_geometry = geometry,
                   self_partition_side_indices = [],
                   self_boundary_side_indices = [],
                   self_frontier_side_indices = [],
                   self_cell_mask = cell_mask,
                   self_cells = fst (masked_indices cell_mask),
                   self_partition_cells = snd (masked_indices cell_mask) \<rparr>
      in compute_side_indices_from_cells self (self_cell_mask self)
           Explicit_cell_inclusion_test)"

definition Explicit_cell_count :: "('sa, 'sia) ExplicitGeometryPartition \<Rightarrow> int" where
  "Explicit_cell_count self = int (length (self_cells self))"

definition Explicit_cell_arg_value ::
  "('sa, 'sia) ExplicitGeometryPartition \<Rightarrow> Explicit_CellArg" where
  "Explicit_cell_arg_value self =
     \<lparr> arg_cell_index = self_cells self,
       arg_partition_cell_index = self_partition_cells self \<rparr>"

definition Explicit_cell_index :: "Explicit_CellArg \<Rightarrow> int \<Rightarrow> error + int" where
  "Explicit_cell_index args partition_cell_index =
     array_get (arg_cell_index args) partition_cell_index"

definition Explicit_partition_cell_index :: "Explicit_CellArg \<Rightarrow> int \<Rightarrow> error + int" where
  "Explicit_partition_cell_index args cell_index =
     array_get (arg_partition_cell_index args) cell_index"

subsection \<open>Equality of partitions\<close>

text \<open>
  \<open>__eq__\<close> of the whole partition compares with any partition object. An object is a
  reference (its identity) and a value of one of the three classes. The \<open>==\<close> of the
  geometries is that of the \<open>Geometry\<close> class and is a parameter.
\<close>

datatype ('sa, 'sia) GeometryPartition =
    Whole "('sa, 'sia) WholeGeometryPartition"
  | Linear "('sa, 'sia) LinearGeometryPartition"
  | Explicit "('sa, 'sia) ExplicitGeometryPartition"

type_synonym ('sa, 'sia) partition_object = "nat \<times> ('sa, 'sia) GeometryPartition"

fun isinstance_WholeGeometryPartition :: "('sa, 'sia) GeometryPartition \<Rightarrow> bool" where
  "isinstance_WholeGeometryPartition (Whole p) = True"
| "isinstance_WholeGeometryPartition (Linear p) = False"
| "isinstance_WholeGeometryPartition (Explicit p) = False"

fun geometry_of :: "('sa, 'sia) GeometryPartition \<Rightarrow> ('sa, 'sia) Geometry" where
  "geometry_of (Whole p) = Whole_geometry p"
| "geometry_of (Linear p) = self_geometry p"
| "geometry_of (Explicit p) = self_geometry p"

definition Whole_eq ::
  "(('sa, 'sia) Geometry \<Rightarrow> ('sa, 'sia) Geometry \<Rightarrow> bool) \<Rightarrow>
     nat \<times> ('sa, 'sia) WholeGeometryPartition \<Rightarrow> ('sa, 'sia) partition_object \<Rightarrow> bool" where
  "Whole_eq geometry_eq self other =
     (isinstance_WholeGeometryPartition (snd other) \<and>
      geometry_eq (Whole_geometry (snd self)) (geometry_of (snd other)))"

subsection \<open>Example geometries\<close>

text \<open>
  A chain of \<open>n\<close> cells \<open>0 - 1 - ... - (n-1)\<close> with \<open>n + 1\<close> sides: side \<open>s\<close> lies
  between the cells \<open>s - 1\<close> and \<open>s\<close>; the two open ends, sides \<open>0\<close> and \<open>n\<close>, have the
  same cell on both sides and are the boundary sides.
\<close>

definition chain_geometry :: "nat \<Rightarrow> (unit, unit) Geometry" where
  "chain_geometry n =
     \<lparr> Geometry_cell_count = n,
       Geometry_side_count = n + 1,
       Geometry_boundary_side_count = 2,
       Geometry_side_arg_value = (),
       Geometry_side_index_arg_value = (),
       Geometry_side_inner_cell_index = (\<lambda>_ s. max 0 (s - 1)),
       Geometry_side_outer_cell_index = (\<lambda>_ s. min s (int n - 1)),
       Geometry_boundary_side_index = (\<lambda>_ i. if i = 0 then 0 else int n) \<rparr>"


section \<open>Auxiliary facts\<close>

subsection \<open>Stream compaction\<close>

lemma masked_indices_fst_set:
  "set (fst (masked_indices m)) = int ` {i. i < length m \<and> m ! i \<noteq> 0}"
  by (auto simp: masked_indices_def)

lemma masked_indices_fst_mono:
  assumes "length bm = length pm" and "\<forall>i<length bm. bm ! i \<noteq> 0 \<longrightarrow> pm ! i \<noteq> 0"
  shows "set (fst (masked_indices bm)) \<subseteq> set (fst (masked_indices pm))"
  using assms unfolding masked_indices_fst_set by auto

lemma masked_indices_fst_length_zeros:
  "\<forall>i<length m. m ! i = 0 \<Longrightarrow> fst (masked_indices m) = []"
  by (simp add: masked_indices_def filter_empty_conv)



lemma filter_upt_nth:
  "k < length (filter P [0..<n]) \<Longrightarrow>
     filter P [0..<n] ! k < n \<and> P (filter P [0..<n] ! k) \<and>
     length (filter P [0..<filter P [0..<n] ! k]) = k"
proof (induction n)
  case 0
  then show ?case by simp
next
  case (Suc n)
  show ?case
  proof (cases "k < length (filter P [0..<n])")
    case True
    with Suc.IH show ?thesis by (simp add: nth_append less_Suc_eq)
  next
    case False
    with Suc.prems have "P n" and "k = length (filter P [0..<n])"
      by (auto split: if_splits)
    then show ?thesis by (simp add: nth_append)
  qed
qed

lemma masked_indices_round_trip:
  assumes "0 \<le> i" and "i < int (length (fst (masked_indices m)))"
  shows "\<exists>g. array_get (fst (masked_indices m)) i = Inr g \<and>
             array_get (snd (masked_indices m)) g = Inr i"
proof -
  let ?P = "\<lambda>j. m ! j \<noteq> 0"
  let ?k = "nat i"
  from assms have k: "?k < length (filter ?P [0..<length m])"
    by (simp add: masked_indices_def)
  from filter_upt_nth [OF k]
  have g: "filter ?P [0..<length m] ! ?k < length m"
    and Pg: "?P (filter ?P [0..<length m] ! ?k)"
    and cnt: "length (filter ?P [0..<filter ?P [0..<length m] ! ?k]) = ?k"
    by simp_all
  have "array_get (fst (masked_indices m)) i = Inr (int (filter ?P [0..<length m] ! ?k))"
    using assms k by (simp add: array_get_def masked_indices_def)
  moreover have "array_get (snd (masked_indices m)) (int (filter ?P [0..<length m] ! ?k)) = Inr i"
    using g Pg cnt assms by (simp add: array_get_def masked_indices_def)
  ultimately show ?thesis by blast
qed

subsection \<open>The launch of the side kernel\<close>

lemma count_side_fn_Inr:
  assumes "test c (Geometry_side_inner_cell_index g ga (int s)) = Inr ii"
    and "test c (Geometry_side_outer_cell_index g ga (int s)) = Inr oi"
  shows "count_side_fn g test ga c s (pm, bm, fm) =
     Inr (if ii then pm[s := 1] else pm,
          if ii \<and> Geometry_side_inner_cell_index g ga (int s) =
                   Geometry_side_outer_cell_index g ga (int s) then bm[s := 1] else bm,
          if ii \<noteq> oi then fm[s := 1] else fm)"
  using assms by (simp add: count_side_fn_def Let_def)

lemma run_threads_count_side_fn:
  assumes "\<forall>s\<in>set tids. test c (Geometry_side_inner_cell_index g ga (int s)) = Inr (ii s) \<and>
             test c (Geometry_side_outer_cell_index g ga (int s)) = Inr (oi s)"
  shows "run_threads (count_side_fn g test ga c) tids (pm, bm, fm) =
     Inr (foldl (\<lambda>a s. if ii s then a[s := 1] else a) pm tids,
          foldl (\<lambda>a s. if ii s \<and> Geometry_side_inner_cell_index g ga (int s) =
                   Geometry_side_outer_cell_index g ga (int s) then a[s := 1] else a) bm tids,
          foldl (\<lambda>a s. if ii s \<noteq> oi s then a[s := 1] else a) fm tids)"
  using assms
proof (induction tids arbitrary: pm bm fm)
  case Nil
  then show ?case by simp
next
  case (Cons s tids)
  from Cons.prems have
    "test c (Geometry_side_inner_cell_index g ga (int s)) = Inr (ii s)"
    "test c (Geometry_side_outer_cell_index g ga (int s)) = Inr (oi s)"
    by simp_all
  then have step: "count_side_fn g test ga c s (pm, bm, fm) =
     Inr (if ii s then pm[s := 1] else pm,
          if ii s \<and> Geometry_side_inner_cell_index g ga (int s) =
                   Geometry_side_outer_cell_index g ga (int s) then bm[s := 1] else bm,
          if ii s \<noteq> oi s then fm[s := 1] else fm)"
    by (rule count_side_fn_Inr)
  from Cons.prems have rest: "\<forall>s\<in>set tids.
      test c (Geometry_side_inner_cell_index g ga (int s)) = Inr (ii s) \<and>
      test c (Geometry_side_outer_cell_index g ga (int s)) = Inr (oi s)"
    by simp
  show ?case by (simp add: step Cons.IH [OF rest])
qed

lemma foldl_mark_length:
  "length (foldl (\<lambda>a s. if P s then a[s := (1::int)] else a) xs tids) = length xs"
  by (induction tids arbitrary: xs) simp_all

lemma foldl_mark_nth:
  "k < length xs \<Longrightarrow>
   foldl (\<lambda>a s. if P s then a[s := (1::int)] else a) xs tids ! k =
     (if k \<in> set tids \<and> P k then 1 else xs ! k)"
proof (induction tids arbitrary: xs)
  case Nil
  then show ?case by simp
next
  case (Cons t tids)
  show ?case
  proof (cases "P t")
    case True
    with Cons.prems Cons.IH [of "xs[t := 1]"] show ?thesis
      by (cases "k = t") (auto simp: nth_list_update)
  next
    case False
    with Cons.prems Cons.IH [of xs] show ?thesis by auto
  qed
qed

lemma foldl_mark_zeros:
  "foldl (\<lambda>a s. if P s then a[s := (1::int)] else a) (replicate n 0) [0..<n] =
     map (\<lambda>s. if P s then 1 else 0) [0..<n]"
  by (rule nth_equalityI) (simp_all add: foldl_mark_length foldl_mark_nth)

lemma classify_sides_Inr:
  assumes "\<forall>s<Geometry_side_count g.
      test c (Geometry_side_inner_cell_index g (Geometry_side_arg_value g) (int s)) = Inr (ii s) \<and>
      test c (Geometry_side_outer_cell_index g (Geometry_side_arg_value g) (int s)) = Inr (oi s)"
  shows "classify_sides g c test =
     Inr (map (\<lambda>s. if ii s then 1 else 0) [0..<Geometry_side_count g],
          map (\<lambda>s. if ii s \<and>
                 Geometry_side_inner_cell_index g (Geometry_side_arg_value g) (int s) =
                 Geometry_side_outer_cell_index g (Geometry_side_arg_value g) (int s)
               then 1 else 0) [0..<Geometry_side_count g],
          map (\<lambda>s. if ii s \<noteq> oi s then 1 else 0) [0..<Geometry_side_count g])"
proof -
  from assms have "\<forall>s\<in>set [0..<Geometry_side_count g].
      test c (Geometry_side_inner_cell_index g (Geometry_side_arg_value g) (int s)) = Inr (ii s) \<and>
      test c (Geometry_side_outer_cell_index g (Geometry_side_arg_value g) (int s)) = Inr (oi s)"
    by simp
  then have "run_threads
      (count_side_fn g test (Geometry_side_arg_value g) c) [0..<Geometry_side_count g]
      (replicate (Geometry_side_count g) 0, replicate (Geometry_side_count g) 0,
       replicate (Geometry_side_count g) 0) =
     Inr (foldl (\<lambda>a s. if ii s then a[s := 1] else a)
            (replicate (Geometry_side_count g) 0) [0..<Geometry_side_count g],
          foldl (\<lambda>a s. if ii s \<and>
                 Geometry_side_inner_cell_index g (Geometry_side_arg_value g) (int s) =
                 Geometry_side_outer_cell_index g (Geometry_side_arg_value g) (int s)
               then a[s := 1] else a)
            (replicate (Geometry_side_count g) 0) [0..<Geometry_side_count g],
          foldl (\<lambda>a s. if ii s \<noteq> oi s then a[s := 1] else a)
            (replicate (Geometry_side_count g) 0) [0..<Geometry_side_count g])"
    by (rule run_threads_count_side_fn)
  then show ?thesis
    by (simp add: classify_sides_def launch_def Let_def foldl_mark_zeros)
qed


lemma run_threads_Inr_tests:
  "run_threads (count_side_fn g test ga c) tids st = Inr st' \<Longrightarrow> s \<in> set tids \<Longrightarrow>
   (\<exists>a. test c (Geometry_side_inner_cell_index g ga (int s)) = Inr a) \<and>
   (\<exists>b. test c (Geometry_side_outer_cell_index g ga (int s)) = Inr b)"
proof (induction tids arbitrary: st)
  case Nil
  then show ?case by simp
next
  case (Cons t tids)
  from Cons.prems(1) obtain st1 where
    step: "count_side_fn g test ga c t st = Inr st1" and
    rest: "run_threads (count_side_fn g test ga c) tids st1 = Inr st'"
    by (auto split: sum.splits)
  show ?case
  proof (cases "s = t")
    case True
    with step show ?thesis
      by (auto simp: count_side_fn_def Let_def split: prod.splits sum.splits)
  next
    case False
    with Cons.prems(2) have "s \<in> set tids" by simp
    with Cons.IH [OF rest] show ?thesis by simp
  qed
qed

lemma classify_sides_result:
  assumes "classify_sides g c test = Inr (pm, bm, fm)"
  shows "pm = map (\<lambda>s. if test c (Geometry_side_inner_cell_index g
                  (Geometry_side_arg_value g) (int s)) = Inr True then 1 else 0)
              [0..<Geometry_side_count g] \<and>
         bm = map (\<lambda>s. if test c (Geometry_side_inner_cell_index g
                  (Geometry_side_arg_value g) (int s)) = Inr True \<and>
                 Geometry_side_inner_cell_index g (Geometry_side_arg_value g) (int s) =
                 Geometry_side_outer_cell_index g (Geometry_side_arg_value g) (int s)
               then 1 else 0) [0..<Geometry_side_count g]"
proof -
  let ?ga = "Geometry_side_arg_value g"
  let ?ii = "\<lambda>s. test c (Geometry_side_inner_cell_index g ?ga (int s)) = Inr True"
  let ?oi = "\<lambda>s. test c (Geometry_side_outer_cell_index g ?ga (int s)) = Inr True"
  from assms have run: "run_threads (count_side_fn g test ?ga c) [0..<Geometry_side_count g]
      (replicate (Geometry_side_count g) 0, replicate (Geometry_side_count g) 0,
       replicate (Geometry_side_count g) 0) = Inr (pm, bm, fm)"
    by (simp add: classify_sides_def launch_def Let_def)
  have tests: "\<forall>s<Geometry_side_count g.
      test c (Geometry_side_inner_cell_index g ?ga (int s)) = Inr (?ii s) \<and>
      test c (Geometry_side_outer_cell_index g ?ga (int s)) = Inr (?oi s)"
  proof (intro allI impI)
    fix s assume "s < Geometry_side_count g"
    then have "s \<in> set [0..<Geometry_side_count g]" by simp
    from run_threads_Inr_tests [OF run this]
    show "test c (Geometry_side_inner_cell_index g ?ga (int s)) = Inr (?ii s) \<and>
      test c (Geometry_side_outer_cell_index g ?ga (int s)) = Inr (?oi s)"
      by auto
  qed
  from classify_sides_Inr [where g = g and test = test and c = c and ii = ?ii and oi = ?oi]
    tests assms
  show ?thesis by simp
qed

lemma engine_boundary_subset:
  assumes "compute_side_indices_from_cells self c test = Inr self'"
  shows "set (self_boundary_side_indices self') \<subseteq> set (self_partition_side_indices self')"
proof -
  from assms obtain pm bm fm where
    cls: "classify_sides (self_geometry self) c test = Inr (pm, bm, fm)" and
    bs: "self_boundary_side_indices self' = fst (masked_indices bm)" and
    ps: "self_partition_side_indices self' = fst (masked_indices pm)"
    by (auto simp: compute_side_indices_from_cells_def split: sum.splits prod.splits)
  from classify_sides_result [OF cls]
  have "length bm = length pm" and "\<forall>i<length bm. bm ! i \<noteq> 0 \<longrightarrow> pm ! i \<noteq> 0"
    by auto
  then show ?thesis
    unfolding bs ps by (rule masked_indices_fst_mono)
qed

lemma engine_keeps_fields:
  assumes "compute_side_indices_from_cells self c test = Inr self'"
  shows "\<exists>ps bs fs. self' = self\<lparr> self_partition_side_indices := ps,
     self_boundary_side_indices := bs, self_frontier_side_indices := fs \<rparr>"
  using assms
  by (auto simp: compute_side_indices_from_cells_def split: sum.splits prod.splits)



lemma compute_side_indices_from_cells_Inr:
  assumes "\<forall>x. \<exists>b. test c x = Inr b"
  shows "\<exists>ps bs fs. compute_side_indices_from_cells self c test =
     Inr (self\<lparr> self_partition_side_indices := ps,
                self_boundary_side_indices := bs, self_frontier_side_indices := fs \<rparr>)"
proof -
  let ?g = "self_geometry self"
  let ?ii = "\<lambda>s. test c (Geometry_side_inner_cell_index ?g
                  (Geometry_side_arg_value ?g) (int s)) = Inr True"
  let ?oi = "\<lambda>s. test c (Geometry_side_outer_cell_index ?g
                  (Geometry_side_arg_value ?g) (int s)) = Inr True"
  have "\<forall>s<Geometry_side_count ?g.
      test c (Geometry_side_inner_cell_index ?g (Geometry_side_arg_value ?g) (int s)) =
        Inr (?ii s) \<and>
      test c (Geometry_side_outer_cell_index ?g (Geometry_side_arg_value ?g) (int s)) =
        Inr (?oi s)"
  proof (intro allI impI conjI)
    fix s
    from assms obtain b where
      "test c (Geometry_side_inner_cell_index ?g (Geometry_side_arg_value ?g) (int s)) = Inr b"
      by blast
    then show "test c (Geometry_side_inner_cell_index ?g (Geometry_side_arg_value ?g) (int s)) =
        Inr (?ii s)" by simp
    from assms obtain b where
      "test c (Geometry_side_outer_cell_index ?g (Geometry_side_arg_value ?g) (int s)) = Inr b"
      by blast
    then show "test c (Geometry_side_outer_cell_index ?g (Geometry_side_arg_value ?g) (int s)) =
        Inr (?oi s)" by simp
  qed
  with classify_sides_Inr [where g = ?g and test = test and c = c and ii = ?ii and oi = ?oi]
  obtain pm bm fm where cls: "classify_sides ?g c test = Inr (pm, bm, fm)"
    by blast
  have "compute_side_indices_from_cells self c test =
     Inr (self\<lparr> self_partition_side_indices := fst (masked_indices pm),
                self_boundary_side_indices := fst (masked_indices bm),
                self_frontier_side_indices := fst (masked_indices fm) \<rparr>)"
    by (simp add: compute_side_indices_from_cells_def cls)
  then show ?thesis by blast
qed

lemma Linear_init_Inr:
  assumes "partition_count \<noteq> 0"
  shows "\<exists>self. Linear_init geometry partition_rank partition_count = Inr self \<and>
     self_geometry self = geometry \<and>
     self_cell_begin self =
       (int (Geometry_cell_count geometry) + partition_count - 1) div partition_count
         * partition_rank \<and>
     self_cell_end self =
       min ((int (Geometry_cell_count geometry) + partition_count - 1) div partition_count
              * partition_rank
            + (int (Geometry_cell_count geometry) + partition_count - 1) div partition_count)
           (int (Geometry_cell_count geometry))"
proof -
  let ?chunk = "(int (Geometry_cell_count geometry) + partition_count - 1) div partition_count"
  let ?self = "\<lparr> self_geometry = geometry, self_partition_side_indices = [],
     self_boundary_side_indices = [], self_frontier_side_indices = [],
     self_cell_begin = ?chunk * partition_rank,
     self_cell_end = min (?chunk * partition_rank + ?chunk)
       (int (Geometry_cell_count geometry)) \<rparr>"
  have "\<forall>x. \<exists>b. Linear_cell_inclusion_test (Linear_cell_arg_value ?self) x = Inr b"
    by (simp add: Linear_cell_inclusion_test_def)
  with compute_side_indices_from_cells_Inr
    [where test = Linear_cell_inclusion_test and c = "Linear_cell_arg_value ?self"
       and self = ?self] assms
  show ?thesis
    by (auto simp: Linear_init_def Let_def)
qed

subsection \<open>The chunks of the Linear partition\<close>

lemma ceil_div_bound:
  assumes "0 < P" shows "(C::int) \<le> ((C + P - 1) div P) * P"
proof -
  have "(C + P - 1) div P * P + (C + P - 1) mod P = C + P - 1" by simp
  moreover from assms have "(C + P - 1) mod P < P" by simp
  ultimately show ?thesis by linarith
qed

lemma range_div:
  assumes "0 < (chunk::int)"
  shows "(chunk * r \<le> g \<and> g < chunk * r + chunk) = (r = g div chunk)"
proof
  assume h: "chunk * r \<le> g \<and> g < chunk * r + chunk"
  have "g div chunk = r"
  proof (rule int_div_pos_eq)
    show "g = chunk * r + (g - chunk * r)" by simp
    from h show "0 \<le> g - chunk * r" by simp
    from h show "g - chunk * r < chunk" by simp
  qed
  then show "r = g div chunk" by simp
next
  assume r: "r = g div chunk"
  have "chunk * (g div chunk) + g mod chunk = g" by simp
  moreover from assms have "0 \<le> g mod chunk" "g mod chunk < chunk" by simp_all
  ultimately show "chunk * r \<le> g \<and> g < chunk * r + chunk" unfolding r by linarith
qed

lemma chunk_pos: "1 \<le> (P::int) \<Longrightarrow> 0 < C \<Longrightarrow> 0 < (C + P - 1) div P"
  by (simp add: nonneg1_imp_zdiv_pos_iff)

lemma div_less_count:
  assumes "1 \<le> (P::int)" "0 \<le> g" "g < C"
  shows "g div ((C + P - 1) div P) < P"
proof -
  let ?chunk = "(C + P - 1) div P"
  from assms have pos: "0 < ?chunk" by (simp add: chunk_pos)
  from assms ceil_div_bound [of P C] have "g < ?chunk * P" by (simp add: mult.commute)
  moreover from pos range_div [of ?chunk "g div ?chunk" g]
  have "?chunk * (g div ?chunk) \<le> g" by simp
  ultimately have "?chunk * (g div ?chunk) < ?chunk * P" by linarith
  with pos show ?thesis by (simp only: mult_less_cancel_left_pos)
qed

subsection \<open>Evaluation on concrete geometries\<close>

lemmas eval_defs = Linear_init_def Explicit_init_def chain_geometry_def
  compute_side_indices_from_cells_def classify_sides_def launch_def count_side_fn_def
  Linear_cell_inclusion_test_def Explicit_cell_inclusion_test_def array_get_def
  Linear_cell_arg_value_def masked_indices_def Let_def upt_conv_Cons


section \<open>Properties of the partitions\<close>

subsection \<open>WholeGeometryPartition\<close>

text \<open>
  C2, as amended: for every whole partition, \<open>cell_index\<close>, \<open>partition_cell_index\<close>,
  \<open>side_index\<close> and \<open>frontier_side_index\<close> return the index they are given, for every
  index; \<open>boundary_side_index\<close> is the \<open>boundary_side_index\<close> of the geometry.
\<close>

theorem Whole_mappings:
  "Whole_cell_index (Whole_init geometry) cell_arg idx = idx \<and>
   Whole_partition_cell_index (Whole_init geometry) cell_arg idx = idx \<and>
   Whole_side_index (Whole_init geometry) side_arg idx = idx \<and>
   Whole_frontier_side_index (Whole_init geometry) side_arg idx = idx \<and>
   Whole_boundary_side_index (Whole_init geometry) side_arg idx =
     Geometry_boundary_side_index geometry side_arg idx"
  by (simp add: Whole_init_def identity_element_index_def)

text \<open>
  C2, as stated, fails: on the chain of four cells the boundary side 1 of the whole
  partition is the side 4 of the geometry, not the side 1.
\<close>

theorem Whole_boundary_side_index_not_identity:
  "Whole_boundary_side_index (Whole_init (chain_geometry 4)) () 1 \<noteq> 1"
  by (simp add: Whole_init_def chain_geometry_def)

text \<open>
  C8: two whole partitions compare equal if and only if their geometries compare equal,
  whatever the identities \<open>a\<close> and \<open>b\<close> of the two objects are.
\<close>

theorem Whole_eq_iff_geometry_eq:
  "Whole_eq geometry_eq (a, p) (b, Whole q) =
     geometry_eq (Whole_geometry p) (Whole_geometry q)"
  by (simp add: Whole_eq_def)

text \<open>
  C9: for every geometry, \<open>frontier_side_count()\<close> of the whole partition returns 0.
\<close>

theorem Whole_frontier_side_count_zero:
  "Whole_frontier_side_count (Whole_init geometry) = 0"
  by (simp add: Whole_frontier_side_count_def)

subsection \<open>The side classification\<close>

text \<open>
  C4: when the inclusion test answers \<open>inner_in s\<close> on the inner cell and \<open>outer_in s\<close>
  on the outer cell of every side \<open>s\<close>, the classification pass returns three masks as
  long as the side count, and for every side \<open>s\<close> the partition mask is 1 if
  \<open>inner_in s\<close> and 0 otherwise, the frontier mask is 1 if \<open>inner_in s \<noteq> outer_in s\<close>
  and 0 otherwise, and the boundary mask is 1 if \<open>inner_in s\<close> holds and the inner and
  outer cell of \<open>s\<close> are the same, and 0 otherwise.
\<close>

theorem side_classification_marks:
  assumes "\<forall>s<Geometry_side_count g.
      test c (Geometry_side_inner_cell_index g (Geometry_side_arg_value g) (int s)) =
        Inr (inner_in s) \<and>
      test c (Geometry_side_outer_cell_index g (Geometry_side_arg_value g) (int s)) =
        Inr (outer_in s)"
  shows "\<exists>partition_side_mask boundary_side_mask frontier_side_mask.
     classify_sides g c test =
       Inr (partition_side_mask, boundary_side_mask, frontier_side_mask) \<and>
     length partition_side_mask = Geometry_side_count g \<and>
     length boundary_side_mask = Geometry_side_count g \<and>
     length frontier_side_mask = Geometry_side_count g \<and>
     (\<forall>s<Geometry_side_count g.
        partition_side_mask ! s = (if inner_in s then 1 else 0) \<and>
        frontier_side_mask ! s = (if inner_in s \<noteq> outer_in s then 1 else 0) \<and>
        boundary_side_mask ! s =
          (if inner_in s \<and>
              Geometry_side_inner_cell_index g (Geometry_side_arg_value g) (int s) =
              Geometry_side_outer_cell_index g (Geometry_side_arg_value g) (int s)
           then 1 else 0))"
  using classify_sides_Inr
    [where g = g and test = test and c = c and ii = inner_in and oi = outer_in] assms
  by simp


theorem side_classification_marks_witness:
  "\<exists>partition_side_mask boundary_side_mask frontier_side_mask.
     classify_sides (chain_geometry 4) \<lparr>cell_begin = 0, cell_end = 2\<rparr>
       Linear_cell_inclusion_test =
       Inr (partition_side_mask, boundary_side_mask, frontier_side_mask) \<and>
     partition_side_mask ! 0 = 1 \<and> boundary_side_mask ! 0 = 1 \<and> frontier_side_mask ! 0 = 0 \<and>
     partition_side_mask ! 2 = 1 \<and> boundary_side_mask ! 2 = 0 \<and> frontier_side_mask ! 2 = 1 \<and>
     partition_side_mask ! 3 = 0 \<and> boundary_side_mask ! 3 = 0 \<and> frontier_side_mask ! 3 = 0"
proof -
  have tests: "\<forall>s<Geometry_side_count (chain_geometry 4).
      Linear_cell_inclusion_test \<lparr>cell_begin = 0, cell_end = 2\<rparr>
        (Geometry_side_inner_cell_index (chain_geometry 4)
           (Geometry_side_arg_value (chain_geometry 4)) (int s)) = Inr (s \<le> 2) \<and>
      Linear_cell_inclusion_test \<lparr>cell_begin = 0, cell_end = 2\<rparr>
        (Geometry_side_outer_cell_index (chain_geometry 4)
           (Geometry_side_arg_value (chain_geometry 4)) (int s)) = Inr (s < 2)"
    by (auto simp: chain_geometry_def Linear_cell_inclusion_test_def)
  from side_classification_marks
    [where g = "chain_geometry 4" and test = Linear_cell_inclusion_test
       and c = "\<lparr>cell_begin = 0, cell_end = 2\<rparr>"
       and inner_in = "\<lambda>s. s \<le> 2" and outer_in = "\<lambda>s. s < 2"] tests
  obtain pm bm fm where
    cls: "classify_sides (chain_geometry 4) \<lparr>cell_begin = 0, cell_end = 2\<rparr>
       Linear_cell_inclusion_test = Inr (pm, bm, fm)" and
    marks: "\<forall>s<Geometry_side_count (chain_geometry 4).
        pm ! s = (if s \<le> 2 then 1 else 0) \<and>
        fm ! s = (if (s \<le> 2) \<noteq> (s < 2) then 1 else 0) \<and>
        bm ! s =
          (if s \<le> 2 \<and>
              Geometry_side_inner_cell_index (chain_geometry 4)
                (Geometry_side_arg_value (chain_geometry 4)) (int s) =
              Geometry_side_outer_cell_index (chain_geometry 4)
                (Geometry_side_arg_value (chain_geometry 4)) (int s)
           then 1 else 0)"
    by blast
  have n: "Geometry_side_count (chain_geometry 4) = 5"
    by (simp add: chain_geometry_def)
  from marks n have "pm ! 0 = 1 \<and> bm ! 0 = 1 \<and> fm ! 0 = 0"
    by (simp add: chain_geometry_def)
  moreover from marks n have "pm ! 2 = 1 \<and> bm ! 2 = 0 \<and> fm ! 2 = 1"
    by (simp add: chain_geometry_def)
  moreover from marks n have "pm ! 3 = 0 \<and> bm ! 3 = 0 \<and> fm ! 3 = 0"
    by (simp add: chain_geometry_def)
  ultimately show ?thesis using cls by simp
qed

text \<open>
  C6: for every Linear and every Explicit partition that its constructor returns, every
  global side index of the boundary array is also in the partition side array.
\<close>

theorem boundary_side_indices_subset:
  "(Linear_init geometry partition_rank partition_count = Inr linear \<longrightarrow>
      set (self_boundary_side_indices linear) \<subseteq> set (self_partition_side_indices linear)) \<and>
   (Explicit_init geometry' cell_mask = Inr explicit \<longrightarrow>
      set (self_boundary_side_indices explicit) \<subseteq> set (self_partition_side_indices explicit))"
  by (auto simp: Linear_init_def Explicit_init_def Let_def split: if_splits
      dest!: engine_boundary_subset)

theorem boundary_side_indices_subset_witness:
  "\<exists>linear explicit.
     Linear_init (chain_geometry 4) 1 2 = Inr linear \<and>
     self_boundary_side_indices linear = [4] \<and>
     set (self_boundary_side_indices linear) \<subseteq> set (self_partition_side_indices linear) \<and>
     Explicit_init (chain_geometry 4) [1, 0, 1, 1] = Inr explicit \<and>
     self_boundary_side_indices explicit = [0, 4] \<and>
     set (self_boundary_side_indices explicit) \<subseteq> set (self_partition_side_indices explicit)"
proof -
  obtain linear where lin: "Linear_init (chain_geometry 4) 1 2 = Inr linear"
    and linb: "self_boundary_side_indices linear = [4]"
    by (simp add: eval_defs)
  obtain explicit where ex: "Explicit_init (chain_geometry 4) [1, 0, 1, 1] = Inr explicit"
    and exb: "self_boundary_side_indices explicit = [0, 4]"
    by (simp add: eval_defs)
  from boundary_side_indices_subset
    [of "chain_geometry 4" 1 2 linear "chain_geometry 4" "[1, 0, 1, 1]" explicit] lin ex
  have "set (self_boundary_side_indices linear) \<subseteq> set (self_partition_side_indices linear)"
    and "set (self_boundary_side_indices explicit)
           \<subseteq> set (self_partition_side_indices explicit)"
    by simp_all
  with lin linb ex exb show ?thesis by blast
qed

subsection \<open>LinearGeometryPartition\<close>

text \<open>What \<open>partition_cell_index\<close> of the Linear partition computes.\<close>

lemma Linear_partition_cell_index_code:
  "Linear_partition_cell_index args g =
     (if g > cell_end args \<or> g < cell_begin args then NULL_ELEMENT_INDEX
      else g - cell_begin args)"
  by (simp add: Linear_partition_cell_index_def Let_def)

text \<open>
  C1: the claim asks for the NULL sentinel at every global index \<open>g \<ge> cell_end\<close>. The
  code does otherwise at \<open>g = cell_end\<close>: rank 0 of 2 over the chain of four cells owns
  the cells 0 and 1 (\<open>cell_begin = 0\<close>, \<open>cell_end = 2\<close>, two cells, cell 2 fails the
  inclusion test), and \<open>partition_cell_index\<close> maps the global cell 2 to the local
  index 2, not to the NULL sentinel.
\<close>

theorem Linear_partition_cell_index_at_cell_end:
  "\<exists>self. Linear_init (chain_geometry 4) 0 2 = Inr self \<and>
     Linear_cell_arg_value self = \<lparr>cell_begin = 0, cell_end = 2\<rparr> \<and>
     Linear_cell_count self = 2 \<and>
     Linear_cell_inclusion_test (Linear_cell_arg_value self) 2 = Inr False \<and>
     Linear_partition_cell_index (Linear_cell_arg_value self) 2 = 2 \<and>
     Linear_partition_cell_index (Linear_cell_arg_value self) 2 \<noteq> NULL_ELEMENT_INDEX"
  by (simp add: eval_defs Linear_cell_count_def Linear_partition_cell_index_def
      NULL_ELEMENT_INDEX_def)


text \<open>
  C3: the claim asks for \<open>cell_count() = 0\<close> at every rank whose \<open>cell_begin\<close> is at
  least the total cell count. The code does otherwise: rank 3 of 4 over the chain of
  five cells has \<open>cell_begin = 6\<close> and \<open>cell_end = 5\<close>, and its \<open>cell_count()\<close> is \<open>-1\<close>.
\<close>

theorem Linear_cell_count_negative:
  "\<exists>self. Linear_init (chain_geometry 5) 3 4 = Inr self \<and>
     self_cell_begin self = 6 \<and> self_cell_end self = 5 \<and>
     Linear_cell_count self = - 1"
  by (simp add: eval_defs Linear_cell_count_def)


text \<open>
  The ranges themselves are as the claim says: for a partition count of at least 1,
  every cell of the geometry passes the inclusion test of exactly one rank below the
  partition count, and a rank owns cells of the geometry only. The defect is in
  \<open>cell_count()\<close> alone.
\<close>

lemma Linear_owner_unique:
  assumes "1 \<le> partition_count" and "0 \<le> g" and "g < int (Geometry_cell_count geometry)"
  shows "\<exists>!r. 0 \<le> r \<and> r < partition_count \<and>
     (\<exists>self. Linear_init geometry r partition_count = Inr self \<and>
        Linear_cell_inclusion_test (Linear_cell_arg_value self) g = Inr True)"
proof -
  let ?C = "int (Geometry_cell_count geometry)"
  let ?chunk = "(?C + partition_count - 1) div partition_count"
  from assms have pos: "0 < ?chunk" by (simp add: chunk_pos)
  from assms have ne: "partition_count \<noteq> 0" by simp
  have owned: "(\<exists>self. Linear_init geometry r partition_count = Inr self \<and>
        Linear_cell_inclusion_test (Linear_cell_arg_value self) g = Inr True) =
      (r = g div ?chunk)" for r
  proof -
    from Linear_init_Inr [OF ne, of geometry r] obtain self where
      init: "Linear_init geometry r partition_count = Inr self" and
      b: "self_cell_begin self = ?chunk * r" and
      e: "self_cell_end self = min (?chunk * r + ?chunk) ?C"
      by blast
    have "Linear_cell_inclusion_test (Linear_cell_arg_value self) g =
        Inr (?chunk * r \<le> g \<and> g < ?chunk * r + ?chunk)"
      using assms(3) by (simp add: Linear_cell_inclusion_test_def Linear_cell_arg_value_def b e)
    with init range_div [OF pos, of r g] show ?thesis by simp
  qed
  from assms pos have "0 \<le> g div ?chunk" by (simp add: pos_imp_zdiv_nonneg_iff)
  moreover from assms have "g div ?chunk < partition_count" by (rule div_less_count)
  ultimately show ?thesis unfolding owned by blast
qed

lemma Linear_range_within:
  assumes "1 \<le> partition_count" and "0 \<le> partition_rank"
    and "Linear_init geometry partition_rank partition_count = Inr self"
    and "Linear_cell_inclusion_test (Linear_cell_arg_value self) g = Inr True"
  shows "0 \<le> g \<and> g < int (Geometry_cell_count geometry)"
proof -
  let ?C = "int (Geometry_cell_count geometry)"
  let ?chunk = "(?C + partition_count - 1) div partition_count"
  from assms(1) have ne: "partition_count \<noteq> 0" by simp
  from Linear_init_Inr [OF ne, of geometry partition_rank] assms(3) have
    b: "self_cell_begin self = ?chunk * partition_rank" and
    e: "self_cell_end self = min (?chunk * partition_rank + ?chunk) ?C"
    by auto
  from assms(1) have "0 \<le> ?chunk" by (simp add: pos_imp_zdiv_nonneg_iff)
  with assms(2) have "0 \<le> ?chunk * partition_rank" by simp
  with assms(4) show ?thesis
    by (simp add: Linear_cell_inclusion_test_def Linear_cell_arg_value_def b e)
qed


text \<open>
  C5: for every Linear partition and every local index \<open>i\<close> with
  \<open>0 \<le> i < cell_count()\<close>, \<open>partition_cell_index (cell_index i) = i\<close>.
\<close>

theorem Linear_round_trip:
  "0 \<le> i \<Longrightarrow> i < Linear_cell_count self \<Longrightarrow>
   Linear_partition_cell_index (Linear_cell_arg_value self)
     (Linear_cell_index (Linear_cell_arg_value self) i) = i"
  by (simp add: Linear_partition_cell_index_def Linear_cell_index_def Linear_cell_arg_value_def
      Linear_cell_count_def Let_def)

theorem Linear_round_trip_witness:
  "\<exists>self. Linear_init (chain_geometry 4) 1 2 = Inr self \<and>
     (0::int) \<le> 1 \<and> 1 < Linear_cell_count self \<and>
     Linear_partition_cell_index (Linear_cell_arg_value self)
       (Linear_cell_index (Linear_cell_arg_value self) 1) = 1"
proof -
  obtain self where init: "Linear_init (chain_geometry 4) 1 2 = Inr self"
    and cnt: "Linear_cell_count self = 2"
    by (simp add: eval_defs Linear_cell_count_def)
  have h1: "(0::int) \<le> 1" by simp
  have h2: "1 < Linear_cell_count self" by (simp add: cnt)
  from Linear_round_trip [OF h1 h2] init h2 show ?thesis by simp
qed


subsection \<open>ExplicitGeometryPartition\<close>




text \<open>
  C10: for every Explicit partition that the constructor returns and every local index
  \<open>i\<close> with \<open>0 \<le> i < cell_count()\<close>, \<open>cell_index i\<close> is some cell and
  \<open>partition_cell_index\<close> of that cell is \<open>i\<close>.
\<close>

theorem Explicit_round_trip:
  assumes "Explicit_init geometry cell_mask = Inr self"
    and "0 \<le> i" and "i < Explicit_cell_count self"
  shows "\<exists>cell. Explicit_cell_index (Explicit_cell_arg_value self) i = Inr cell \<and>
     Explicit_partition_cell_index (Explicit_cell_arg_value self) cell = Inr i"
proof -
  from assms(1) have "self_cells self = fst (masked_indices cell_mask)"
    and "self_partition_cells self = snd (masked_indices cell_mask)"
    by (auto simp: Explicit_init_def Let_def dest!: engine_keeps_fields)
  with assms(2,3) masked_indices_round_trip [of i cell_mask] show ?thesis
    by (simp add: Explicit_cell_index_def Explicit_partition_cell_index_def
        Explicit_cell_arg_value_def Explicit_cell_count_def)
qed



theorem Explicit_round_trip_witness:
  "\<exists>self. Explicit_init (chain_geometry 4) [1, 0, 1, 1] = Inr self \<and>
     1 < Explicit_cell_count self \<and>
     (\<exists>cell. Explicit_cell_index (Explicit_cell_arg_value self) 1 = Inr cell \<and>
        Explicit_partition_cell_index (Explicit_cell_arg_value self) cell = Inr 1)"
proof -
  obtain self where init: "Explicit_init (chain_geometry 4) [1, 0, 1, 1] = Inr self"
    and cnt: "Explicit_cell_count self = 3"
    by (simp add: eval_defs Explicit_cell_count_def)
  have h1: "(0::int) \<le> 1" by simp
  have h2: "1 < Explicit_cell_count self" by (simp add: cnt)
  from Explicit_round_trip [OF init h1 h2] init h2 show ?thesis by blast
qed

end
